theory Spec2Isabelle
  imports Main
begin

section \<open>The release notifier: data model\<close>

text \<open>
  A shallow embedding of \<^verbatim>\<open>src/main.py\<close>. Python strings are modelled as
  \<^typ>\<open>string\<close>; a \<^typ>\<open>char\<close> stands for one code point in the range
  U+0000 .. U+00FF, so \<open>CHR 0xE9\<close> is the non-ASCII letter U+00E9. Python's unbounded
  integers are \<^typ>\<open>int\<close>. A \<^verbatim>\<open>datetime\<close> is modelled by the instant it denotes,
  an \<^typ>\<open>int\<close> (the order of instants is the order \<^verbatim>\<open>>=\<close> tests on timezone-aware
  values); the release source is taken to supply \<^verbatim>\<open>published_at\<close> on every release it
  returns.
\<close>

text \<open>\<^verbatim>\<open>class Webhook(BaseModel)\<close>. The static \<^verbatim>\<open>data\<close> and \<^verbatim>\<open>headers\<close>
  are passed through to the transport untouched.\<close>

record Webhook =
  url :: string
  content :: "string option"
  data :: "(string \<times> string) list option"
  headers :: "(string \<times> string) list option"

text \<open>\<^verbatim>\<open>class Settings(BaseSettings)\<close>: the resolved settings the pass reads. The
  state file's path and the log level only reach the file system and the logging set-up.\<close>

record Settings =
  repos :: "string list"
  skip_draft :: bool
  webhook :: "Webhook option"
  timezone :: string

text \<open>\<^verbatim>\<open>class State(BaseModel)\<close>; the field \<^verbatim>\<open>id\<close> is written \<open>id'\<close>.\<close>

record State =
  id' :: int
  html_url :: string
  tag_name :: string
  name :: string
  published_at :: int

text \<open>\<^verbatim>\<open>StateFile.states : dict[str, State]\<close>.\<close>

type_synonym StateMap = "string \<rightharpoonup> State"

text \<open>The release object \<^verbatim>\<open>repo.get_latest_release()\<close> returns, with the attributes
  the pass reads. \<^verbatim>\<open>name\<close> and \<^verbatim>\<open>body\<close> may be \<^verbatim>\<open>None\<close>.\<close>

record GitRelease =
  rel_id :: int
  rel_html_url :: string
  rel_tag_name :: string
  rel_name :: "string option"
  rel_published_at :: int
  rel_draft :: bool
  rel_body :: "string option"

text \<open>The exceptions that leave \<^verbatim>\<open>main\<close>, and the one raised inside the
  \<^verbatim>\<open>try\<close> block around the delivery.\<close>

datatype exn = RequestError string | HTTPStatusError nat

datatype error =
    ZoneInfoNotFoundError string
  | StateCorruptError
  | GithubException string string
  | ValueError string

datatype level = DEBUG | INFO | ERROR

text \<open>What a pass does to the outside world, in order: the query of the release source,
  log records, and the outbound request with its four arguments.\<close>

datatype event =
    GetLatestRelease string
  | Log level string
  | HttpPost string "string option" "(string \<times> string) list option" "(string \<times> string) list option"

text \<open>The external collaborators of \<^verbatim>\<open>main\<close>: the time zone database, the file
  system and the YAML and model validation of the state file, the GitHub API, the HTTP
  transport, and the textual forms of timestamps and exceptions.\<close>

record env =
  zone_available :: "string \<Rightarrow> bool"
  state_file_content :: "string option"
  parse_state_file :: "string \<Rightarrow> StateMap option"
  get_latest_release :: "string \<Rightarrow> string + GitRelease"
  httpx_post :: "string \<Rightarrow> string option \<Rightarrow> (string \<times> string) list option \<Rightarrow>
                 (string \<times> string) list option \<Rightarrow> string + nat"
  isoformat :: "int \<Rightarrow> string"
  astimezone_isoformat :: "string \<Rightarrow> int \<Rightarrow> string"
  str_exn :: "exn \<Rightarrow> string"

section \<open>\<^verbatim>\<open>escape\<close>: JSON string encoding\<close>

text \<open>\<^verbatim>\<open>json.dumps(s, ensure_ascii=False)\<close> on a string is
  \<^verbatim>\<open>encode_basestring\<close> of the standard library: the characters matched by
  \<^verbatim>\<open>ESCAPE = [\x00-\x1f\\"\b\f\n\r\t]\<close> are replaced by their entry in
  \<^verbatim>\<open>ESCAPE_DCT\<close>, every other character is copied.\<close>

definition hex_digit :: "nat \<Rightarrow> char" where
  "hex_digit d = ''0123456789abcdef'' ! d"

text \<open>\<^verbatim>\<open>'{0:04x}'.format(n)\<close> for \<open>n < 65536\<close>.\<close>

definition hex4 :: "nat \<Rightarrow> string" where
  "hex4 n = [hex_digit (n div 4096 mod 16), hex_digit (n div 256 mod 16),
             hex_digit (n div 16 mod 16), hex_digit (n mod 16)]"

definition ESCAPE_DCT :: "char \<Rightarrow> string option" where
  "ESCAPE_DCT c =
     (if c = CHR 0x5C then Some [CHR 0x5C, CHR 0x5C]
      else if c = CHR 0x22 then Some [CHR 0x5C, CHR 0x22]
      else if c = CHR 0x08 then Some [CHR 0x5C, CHR ''b'']
      else if c = CHR 0x0C then Some [CHR 0x5C, CHR ''f'']
      else if c = CHR 0x0A then Some [CHR 0x5C, CHR ''n'']
      else if c = CHR 0x0D then Some [CHR 0x5C, CHR ''r'']
      else if c = CHR 0x09 then Some [CHR 0x5C, CHR ''t'']
      else if of_char c < (32::nat) then Some ([CHR 0x5C, CHR ''u''] @ hex4 (of_char c))
      else None)"

definition replace_char :: "char \<Rightarrow> string" where
  "replace_char c = (case ESCAPE_DCT c of Some r \<Rightarrow> r | None \<Rightarrow> [c])"

definition py_encode_basestring :: "string \<Rightarrow> string" where
  "py_encode_basestring s = [CHR 0x22] @ concat (map replace_char s) @ [CHR 0x22]"

definition json_dumps :: "string \<Rightarrow> string" where
  "json_dumps s = py_encode_basestring s"

text \<open>\<^verbatim>\<open>def escape(s)\<close>: the slice \<^verbatim>\<open>o[1:-1]\<close>.\<close>

definition escape :: "string \<Rightarrow> string" where
  "escape s = (let out = json_dumps s in drop 1 (take (length out - 1) out))"

subsection \<open>Reading a JSON string literal\<close>

text \<open>The grammar of a JSON string (RFC 8259, section 7), as a strict JSON parser reads
  it: after the opening quotation mark, unescaped characters from U+0020 on, the
  two-character escapes and \<^verbatim>\<open>\uXXXX\<close>, up to the closing quotation mark. The result
  is the decoded string and the input after the literal. The program never parses JSON;
  this is the reading side of the round trip the specification asks for. An escape \<^verbatim>\<open>\uXXXX\<close>
  beyond U+00FF denotes no \<^typ>\<open>char\<close> and is rejected here.\<close>

definition hex_val :: "char \<Rightarrow> nat option" where
  "hex_val c =
     (let n = (of_char c :: nat) in
      if 48 \<le> n \<and> n \<le> 57 then Some (n - 48)
      else if 97 \<le> n \<and> n \<le> 102 then Some (n - 87)
      else if 65 \<le> n \<and> n \<le> 70 then Some (n - 55)
      else None)"

definition BACKSLASH :: "char \<Rightarrow> char option" where
  "BACKSLASH e =
     (if e = CHR 0x22 then Some (CHR 0x22)
      else if e = CHR 0x5C then Some (CHR 0x5C)
      else if e = CHR ''/'' then Some (CHR ''/'')
      else if e = CHR ''b'' then Some (CHR 0x08)
      else if e = CHR ''f'' then Some (CHR 0x0C)
      else if e = CHR ''n'' then Some (CHR 0x0A)
      else if e = CHR ''r'' then Some (CHR 0x0D)
      else if e = CHR ''t'' then Some (CHR 0x09)
      else None)"

definition push :: "char \<Rightarrow> (string \<times> string) option \<Rightarrow> (string \<times> string) option" where
  "push c r = (case r of None \<Rightarrow> None | Some (s, rest) \<Rightarrow> Some (c # s, rest))"

definition unicode_escape :: "string \<Rightarrow> char option" where
  "unicode_escape ds =
     (case map hex_val ds of
        [Some a, Some b, Some c, Some d] \<Rightarrow>
          (let n = a * 4096 + b * 256 + c * 16 + d in
           if n < 256 then Some (char_of n) else None)
      | _ \<Rightarrow> None)"

fun scanstring :: "string \<Rightarrow> (string \<times> string) option" where
  "scanstring [] = None"
| "scanstring (c # cs) =
     (if c = CHR 0x22 then Some ([], cs)
      else if c = CHR 0x5C then
        (case cs of
           [] \<Rightarrow> None
         | e # es \<Rightarrow>
             if e = CHR ''u'' then
               (if length es < 4 then None
                else (case unicode_escape (take 4 es) of
                        None \<Rightarrow> None
                      | Some ch \<Rightarrow> push ch (scanstring (drop 4 es))))
             else (case BACKSLASH e of
                     None \<Rightarrow> None
                   | Some ch \<Rightarrow> push ch (scanstring es)))
      else if of_char c < (32::nat) then None
      else push c (scanstring cs))"

definition json_string_literal :: "string \<Rightarrow> (string \<times> string) option" where
  "json_string_literal s =
     (case s of [] \<Rightarrow> None | c # cs \<Rightarrow> if c = CHR 0x22 then scanstring cs else None)"

section \<open>\<^verbatim>\<open>string.Template.safe_substitute\<close>\<close>

text \<open>The values of the keyword mapping and Python's \<^verbatim>\<open>str\<close> on them.\<close>

datatype pyval = PyStr string | PyInt int

fun digits :: "nat \<Rightarrow> string" where
  "digits n = (if n < 10 then [hex_digit n] else digits (n div 10) @ [hex_digit (n mod 10)])"

definition str_int :: "int \<Rightarrow> string" where
  "str_int i = (if i < 0 then CHR ''-'' # digits (nat (- i)) else digits (nat i))"

fun str :: "pyval \<Rightarrow> string" where
  "str (PyStr s) = s"
| "str (PyInt i) = str_int i"

text \<open>The identifier pattern \<^verbatim>\<open>(?a:[_a-z][_a-z0-9]*)\<close> under
  \<^verbatim>\<open>re.IGNORECASE\<close>.\<close>

definition is_id_start :: "char \<Rightarrow> bool" where
  "is_id_start c =
     (let n = (of_char c :: nat) in n = 95 \<or> (97 \<le> n \<and> n \<le> 122) \<or> (65 \<le> n \<and> n \<le> 90))"

definition is_id_char :: "char \<Rightarrow> bool" where
  "is_id_char c = (is_id_start c \<or> (48 \<le> (of_char c :: nat) \<and> (of_char c :: nat) \<le> 57))"

text \<open>A match of \<^verbatim>\<open>Template.pattern\<close>: its four named groups and the whole
  matched text \<^verbatim>\<open>mo.group()\<close>.\<close>

record match_obj =
  escaped :: "string option"
  named :: "string option"
  braced :: "string option"
  invalid :: "string option"
  group0 :: string

definition no_group :: match_obj where
  "no_group = \<lparr>escaped = None, named = None, braced = None, invalid = None, group0 = []\<rparr>"

text \<open>The pattern at a delimiter: the argument is the text after the \<^verbatim>\<open>$\<close>, the
  result is the match and the text after it. The alternatives are tried in the
  pattern's order: \<^verbatim>\<open>escaped\<close>, \<^verbatim>\<open>named\<close>, \<^verbatim>\<open>braced\<close>, and
  \<^verbatim>\<open>invalid\<close>, which matches the empty text.\<close>

definition pattern_match :: "string \<Rightarrow> match_obj \<times> string" where
  "pattern_match cs =
     (let inval = (no_group\<lparr>invalid := Some [], group0 := ''$''\<rparr>, cs) in
      case cs of
        [] \<Rightarrow> inval
      | c # cs' \<Rightarrow>
          if c = CHR ''$'' then (no_group\<lparr>escaped := Some ''$'', group0 := ''$$''\<rparr>, cs')
          else if is_id_start c then
            (let ident = takeWhile is_id_char cs in
             (no_group\<lparr>named := Some ident, group0 := CHR ''$'' # ident\<rparr>, dropWhile is_id_char cs))
          else if c = CHR ''{'' then
            (case cs' of
               [] \<Rightarrow> inval
             | i # _ \<Rightarrow>
                 if is_id_start i then
                   (let ident = takeWhile is_id_char cs' in
                    case dropWhile is_id_char cs' of
                      [] \<Rightarrow> inval
                    | d # rest \<Rightarrow>
                        if d = CHR ''}'' then
                          (no_group\<lparr>braced := Some ident, group0 := ''${'' @ ident @ ''}''\<rparr>, rest)
                        else inval)
                 else inval)
          else inval)"

text \<open>\<^verbatim>\<open>convert(mo)\<close> inside \<^verbatim>\<open>safe_substitute\<close>, with its final
  \<^verbatim>\<open>raise ValueError\<close>.\<close>

definition convert :: "(string \<rightharpoonup> pyval) \<Rightarrow> match_obj \<Rightarrow> error + string" where
  "convert mapping mo =
     (let named' = (case named mo of
                      None \<Rightarrow> braced mo
                    | Some n \<Rightarrow> if n \<noteq> [] then Some n else braced mo) in
      case named' of
        Some n \<Rightarrow> (case mapping n of Some v \<Rightarrow> Inr (str v) | None \<Rightarrow> Inr (group0 mo))
      | None \<Rightarrow>
          if escaped mo \<noteq> None then Inr ''$''
          else if invalid mo \<noteq> None then Inr (group0 mo)
          else Inl (ValueError ''Unrecognized named group in pattern''))"

text \<open>\<^verbatim>\<open>pattern.sub(convert, template)\<close>: text between matches is copied, each match
  is replaced by what \<open>convert\<close> returns, and an exception of \<open>convert\<close> ends the
  substitution.\<close>

function pattern_sub :: "(match_obj \<Rightarrow> error + string) \<Rightarrow> string \<Rightarrow> error + string" where
  "pattern_sub f [] = Inr []"
| "pattern_sub f (c # cs) =
     (if c \<noteq> CHR ''$'' then
        (case pattern_sub f cs of Inl e \<Rightarrow> Inl e | Inr r \<Rightarrow> Inr (c # r))
      else
        (case f (fst (pattern_match cs)) of
           Inl e \<Rightarrow> Inl e
         | Inr out \<Rightarrow>
             (case pattern_sub f (snd (pattern_match cs)) of
                Inl e \<Rightarrow> Inl e
              | Inr r \<Rightarrow> Inr (out @ r))))"
  by pat_completeness auto
termination
proof (relation "measure (\<lambda>(f, s). length s)")
  show "wf (measure (\<lambda>(f :: match_obj \<Rightarrow> error + string, s :: string). length s))"
    by simp
next
  fix f :: "match_obj \<Rightarrow> error + string" and c :: char and cs :: string
  show "((f, cs), (f, c # cs)) \<in> measure (\<lambda>(f, s). length s)"
    by simp
next
  fix f :: "match_obj \<Rightarrow> error + string" and c :: char and cs :: string and out :: string
  have dw: "length rest < length xs" if "dropWhile is_id_char xs = d # rest" for xs d rest
    using that length_dropWhile_le [of is_id_char xs] by simp
  have "length (snd (pattern_match cs)) \<le> length cs"
    by (auto simp: pattern_match_def Let_def split: list.splits if_splits
             intro: le_trans [OF length_dropWhile_le] dest!: dw)
  then show "((f, snd (pattern_match cs)), (f, c # cs)) \<in> measure (\<lambda>(f, s). length s)"
    by simp
qed

definition safe_substitute :: "string \<Rightarrow> (string \<times> pyval) list \<Rightarrow> error + string" where
  "safe_substitute template kws = pattern_sub (convert (map_of kws)) template"

section \<open>\<^verbatim>\<open>main\<close>: one pass over the configured repositories\<close>

text \<open>\<^verbatim>\<open>release.name or release.tag_name\<close>: the tag stands in for a name that is
  \<^verbatim>\<open>None\<close> or empty.\<close>

definition name_or_tag :: "GitRelease \<Rightarrow> string" where
  "name_or_tag release =
     (case rel_name release of
        None \<Rightarrow> rel_tag_name release
      | Some n \<Rightarrow> if n \<noteq> [] then n else rel_tag_name release)"

text \<open>The \<^verbatim>\<open>State(...)\<close> stored for a release (lines 113 to 119).\<close>

definition new_state :: "GitRelease \<Rightarrow> State" where
  "new_state release =
     \<lparr>id' = rel_id release,
      html_url = rel_html_url release,
      tag_name = rel_tag_name release,
      name = name_or_tag release,
      published_at = rel_published_at release\<rparr>"

text \<open>The test of line 121,
  \<^verbatim>\<open>prev_state and prev_state.published_at >= release.published_at\<close>.\<close>

definition no_new_release :: "State option \<Rightarrow> GitRelease \<Rightarrow> bool" where
  "no_new_release prev_state release =
     (case prev_state of
        None \<Rightarrow> False
      | Some p \<Rightarrow> published_at p \<ge> rel_published_at release)"

text \<open>The keyword arguments of \<^verbatim>\<open>safe_substitute\<close> (lines 139 to 145).\<close>

definition template_kws :: "env \<Rightarrow> Settings \<Rightarrow> string \<Rightarrow> GitRelease \<Rightarrow> (string \<times> pyval) list" where
  "template_kws e cfg repo_name release =
     [(''repo_name'', PyStr repo_name),
      (''id'', PyInt (rel_id release)),
      (''html_url'', PyStr (rel_html_url release)),
      (''tag_name'', PyStr (rel_tag_name release)),
      (''name'', PyStr (escape (name_or_tag release))),
      (''published_at'',
         PyStr (astimezone_isoformat e (timezone cfg) (rel_published_at release))),
      (''body'', PyStr (escape (case rel_body release of None \<Rightarrow> [] | Some b \<Rightarrow> b)))]"

text \<open>Lines 134 to 146: the content sent is the configured one, rendered when it is not
  empty.\<close>

definition render_content ::
  "env \<Rightarrow> Settings \<Rightarrow> Webhook \<Rightarrow> string \<Rightarrow> GitRelease \<Rightarrow> error + string option" where
  "render_content e cfg w repo_name release =
     (case content w of
        None \<Rightarrow> Inr None
      | Some c \<Rightarrow>
          if c \<noteq> [] then
            (case safe_substitute c (template_kws e cfg repo_name release) of
               Inl err \<Rightarrow> Inl err
             | Inr s \<Rightarrow> Inr (Some s))
          else Inr (Some c))"

text \<open>\<^verbatim>\<open>Response.raise_for_status\<close> raises unless the status is a 2xx.\<close>

definition is_success :: "nat \<Rightarrow> bool" where
  "is_success code = (200 \<le> code \<and> code < 300)"

text \<open>Lines 148 to 159: the request, and the \<^verbatim>\<open>except Exception\<close> that turns a
  failed delivery into an error record of the log.\<close>

definition send_notification :: "env \<Rightarrow> Webhook \<Rightarrow> string \<Rightarrow> string option \<Rightarrow> event list" where
  "send_notification e w repo_name c =
     HttpPost (url w) c (data w) (headers w) #
     (case httpx_post e (url w) c (data w) (headers w) of
        Inl msg \<Rightarrow>
          [Log ERROR (repo_name @ '': Failed to send notification: '' @ str_exn e (RequestError msg))]
      | Inr code \<Rightarrow>
          if is_success code then [Log DEBUG (repo_name @ '': Notification sent'')]
          else [Log ERROR (repo_name @ '': Failed to send notification: ''
                            @ str_exn e (HTTPStatusError code))])"

text \<open>The body of the loop (lines 103 to 159) for one repository: the state map and the
  events it leaves, and the exception that escapes it, if any. Nothing catches an
  exception of \<^verbatim>\<open>get_latest_release\<close>.\<close>

definition process_repo ::
  "env \<Rightarrow> Settings \<Rightarrow> StateMap \<Rightarrow> string \<Rightarrow> StateMap \<times> event list \<times> error option" where
  "process_repo e cfg states repo_name =
     (case get_latest_release e repo_name of
        Inl msg \<Rightarrow> (states, [GetLatestRelease repo_name], Some (GithubException repo_name msg))
      | Inr release \<Rightarrow>
          if skip_draft cfg \<and> rel_draft release then (states, [GetLatestRelease repo_name], None)
          else
            (let prev_state = states repo_name;
                 states' = states(repo_name \<mapsto> new_state release)
             in
             if no_new_release prev_state release then
               (states', [GetLatestRelease repo_name, Log INFO (repo_name @ '': No new release'')], None)
             else
               (let evs = [GetLatestRelease repo_name,
                           Log INFO (repo_name @ '': New release: '' @ name_or_tag release @ '' / ''
                                     @ rel_tag_name release @ '' / ''
                                     @ isoformat e (rel_published_at release))]
                in
                case webhook cfg of
                  None \<Rightarrow> (states', evs, None)
                | Some w \<Rightarrow>
                    (case render_content e cfg w repo_name release of
                       Inl err \<Rightarrow> (states', evs, Some err)
                     | Inr c \<Rightarrow> (states', evs @ send_notification e w repo_name c, None)))))"

text \<open>The loop of line 102: an exception ends it.\<close>

fun process_repos ::
  "env \<Rightarrow> Settings \<Rightarrow> StateMap \<Rightarrow> string list \<Rightarrow> StateMap \<times> event list \<times> error option" where
  "process_repos e cfg states [] = (states, [], None)"
| "process_repos e cfg states (repo_name # rest) =
     (case process_repo e cfg states repo_name of
        (states', evs, Some err) \<Rightarrow> (states', evs, Some err)
      | (states', evs, None) \<Rightarrow>
          (case process_repos e cfg states' rest of
             (states'', evs', r) \<Rightarrow> (states'', evs @ evs', r)))"

text \<open>Lines 95 to 100. \<open>StateCorruptError\<close> stands for whatever \<^verbatim>\<open>yaml.safe_load\<close>
  or the validation \<^verbatim>\<open>StateFile(**obj)\<close> raises.\<close>

definition load_state :: "env \<Rightarrow> error + StateMap" where
  "load_state e =
     (case state_file_content e of
        None \<Rightarrow> Inr Map.empty
      | Some txt \<Rightarrow>
          (case parse_state_file e txt of
             None \<Rightarrow> Inl StateCorruptError
           | Some states \<Rightarrow> Inr states))"

text \<open>The outcome of a run: the exception that ended it, the state map dumped to the
  state file (none when the dump was not reached), and the events in order. The write
  of lines 161 to 164 is taken to succeed.\<close>

record run =
  raised :: "error option"
  dumped :: "StateMap option"
  events :: "event list"

definition main :: "env \<Rightarrow> Settings \<Rightarrow> run" where
  "main e cfg =
     (if \<not> zone_available e (timezone cfg) then
        \<lparr>raised = Some (ZoneInfoNotFoundError (timezone cfg)), dumped = None, events = []\<rparr>
      else
        (case load_state e of
           Inl err \<Rightarrow> \<lparr>raised = Some err, dumped = None, events = []\<rparr>
         | Inr state_file \<Rightarrow>
             (case process_repos e cfg state_file (repos cfg) of
                (states, evs, Some err) \<Rightarrow> \<lparr>raised = Some err, dumped = None, events = evs\<rparr>
              | (states, evs, None) \<Rightarrow> \<lparr>raised = None, dumped = Some states, events = evs\<rparr>)))"

text \<open>The outbound requests among a list of events.\<close>

fun is_post :: "event \<Rightarrow> bool" where
  "is_post (HttpPost u c d h) = True"
| "is_post _ = False"

definition posts :: "event list \<Rightarrow> event list" where
  "posts evs = filter is_post evs"

section \<open>Notions used in the statements\<close>

text \<open>The draft filter of line 106.\<close>

definition skipped :: "Settings \<Rightarrow> GitRelease \<Rightarrow> bool" where
  "skipped cfg release = (skip_draft cfg \<and> rel_draft release)"

text \<open>The record logged at line 125.\<close>

definition new_release_record :: "env \<Rightarrow> string \<Rightarrow> GitRelease \<Rightarrow> event" where
  "new_release_record e repo_name release =
     Log INFO (repo_name @ '': New release: '' @ name_or_tag release @ '' / ''
               @ rel_tag_name release @ '' / '' @ isoformat e (rel_published_at release))"

text \<open>The content handed to the transport: the value of \<open>render_content\<close>.\<close>

definition rendered :: "env \<Rightarrow> Settings \<Rightarrow> Webhook \<Rightarrow> string \<Rightarrow> GitRelease \<Rightarrow> string option" where
  "rendered e cfg w repo_name release =
     (case render_content e cfg w repo_name release of Inl err \<Rightarrow> None | Inr c \<Rightarrow> c)"

text \<open>The events of lines 131 to 159, once a release counts as new.\<close>

definition notification_events :: "env \<Rightarrow> Settings \<Rightarrow> string \<Rightarrow> GitRelease \<Rightarrow> event list" where
  "notification_events e cfg repo_name release =
     (case webhook cfg of
        None \<Rightarrow> []
      | Some w \<Rightarrow> send_notification e w repo_name (rendered e cfg w repo_name release))"

text \<open>A delivery that raises inside the \<^verbatim>\<open>try\<close> block: a transport exception,
  or a status that \<^verbatim>\<open>raise_for_status\<close> refuses.\<close>

definition delivery_failed :: "env \<Rightarrow> Webhook \<Rightarrow> string option \<Rightarrow> bool" where
  "delivery_failed e w c =
     (case httpx_post e (url w) c (data w) (headers w) of
        Inl msg \<Rightarrow> True
      | Inr code \<Rightarrow> \<not> is_success code)"

text \<open>A repository whose stored entry already is the snapshot the source returns (or
  whose release the draft filter skips).\<close>

definition settled :: "env \<Rightarrow> Settings \<Rightarrow> StateMap \<Rightarrow> string \<Rightarrow> bool" where
  "settled e cfg s r =
     (case get_latest_release e r of
        Inl msg \<Rightarrow> False
      | Inr rel \<Rightarrow> skipped cfg rel \<or> s r = Some (new_state rel))"

text \<open>A text the identifier pattern matches as a whole.\<close>

definition valid_identifier :: "string \<Rightarrow> bool" where
  "valid_identifier k =
     (case k of [] \<Rightarrow> False | c # cs \<Rightarrow> is_id_start c \<and> list_all is_id_char cs)"

text \<open>A match object with one of the groups that \<open>convert\<close> handles.\<close>

definition well_formed :: "match_obj \<Rightarrow> bool" where
  "well_formed mo =
     (escaped mo \<noteq> None \<or> invalid mo \<noteq> None \<or> braced mo \<noteq> None
      \<or> (case named mo of None \<Rightarrow> False | Some n \<Rightarrow> n \<noteq> []))"

text \<open>The text after an unbraced placeholder: nothing, or a character that cannot
  continue an identifier.\<close>

definition ends_identifier :: "string \<Rightarrow> bool" where
  "ends_identifier post = (case post of [] \<Rightarrow> True | c # cs \<Rightarrow> \<not> is_id_char c)"

subsection \<open>Sample data\<close>

text \<open>The scenario of the specification: repository \<^verbatim>\<open>a/b\<close>, stored release
  \<^verbatim>\<open>v1\<close> of 2024-01-01T00:00:00Z, latest release \<^verbatim>\<open>v2\<close> of
  2024-02-01T00:00:00Z (instants in seconds since the epoch).\<close>

definition state_v1 :: State where
  "state_v1 =
     \<lparr>id' = 1, html_url = ''https://example.org/a/b/v1'', tag_name = ''v1'',
      name = ''First'', published_at = 1704067200\<rparr>"

definition release_v2 :: GitRelease where
  "release_v2 =
     \<lparr>rel_id = 2, rel_html_url = ''https://example.org/a/b/v2'', rel_tag_name = ''v2'',
      rel_name = Some ''Second'', rel_published_at = 1706745600, rel_draft = False,
      rel_body = Some ''notes''\<rparr>"

text \<open>A release whose name holds a quotation mark and whose body is absent.\<close>

definition release_v3 :: GitRelease where
  "release_v3 =
     \<lparr>rel_id = 1024, rel_html_url = ''https://example.org/a/b/v3'', rel_tag_name = ''v3'',
      rel_name = Some [CHR ''a'', CHR 0x22, CHR ''b''], rel_published_at = 1706745600,
      rel_draft = False, rel_body = None\<rparr>"

definition hook :: Webhook where
  "hook = \<lparr>url = ''https://example.org/hook'', content = Some ''Release ${tag_name}'',
            data = None, headers = None\<rparr>"

definition cfg_ab :: Settings where
  "cfg_ab = \<lparr>repos = [''a/b''], skip_draft = True, webhook = Some hook, timezone = ''UTC''\<rparr>"

text \<open>A world in which every query returns \<open>release_v2\<close>, every delivery is answered
  with status 204, and no state file exists; the text \<^verbatim>\<open>saved\<close> parses to the state
  map that holds \<open>release_v2\<close> for \<^verbatim>\<open>a/b\<close>.\<close>

definition env_ok :: env where
  "env_ok =
     \<lparr>zone_available = (\<lambda>z. z = ''UTC''),
      state_file_content = None,
      parse_state_file = (\<lambda>txt. if txt = ''saved'' then Some [''a/b'' \<mapsto> new_state release_v2] else None),
      get_latest_release = (\<lambda>r. Inr release_v2),
      httpx_post = (\<lambda>u c d h. Inr 204),
      isoformat = (\<lambda>t. ''2024-02-01T00:00:00+00:00''),
      astimezone_isoformat = (\<lambda>z t. ''2024-02-01T00:00:00+00:00''),
      str_exn = (\<lambda>x. case x of RequestError m \<Rightarrow> m | HTTPStatusError n \<Rightarrow> ''bad status'')\<rparr>"

section \<open>Properties of the encoding and of the template\<close>

lemma escape_concat: "escape s = concat (map replace_char s)"
  by (simp add: escape_def json_dumps_def py_encode_basestring_def)

lemma nat_lt_16_cases:
  "(d::nat) < 16 \<Longrightarrow> d \<in> {0, 1, 2, 3, 4, 5, 6, 7, 8, 9, 10, 11, 12, 13, 14, 15}"
  by simp arith

lemma hex_val_hex_digit: "d < 16 \<Longrightarrow> hex_val (hex_digit d) = Some d"
  by (drule nat_lt_16_cases) (auto simp: hex_val_def hex_digit_def Let_def)

lemma unicode_escape_hex4: "n < 256 \<Longrightarrow> unicode_escape (hex4 n) = Some (char_of n)"
  by (simp add: unicode_escape_def hex4_def hex_val_hex_digit)

lemma scanstring_control:
  assumes "of_char c < (32::nat)"
  shows "scanstring ([CHR 0x5C, CHR ''u''] @ hex4 (of_char c) @ rest) = push c (scanstring rest)"
proof -
  have len: "length (hex4 (of_char c)) = 4" by (simp add: hex4_def)
  have "unicode_escape (hex4 (of_char c)) = Some c"
    using assms unicode_escape_hex4 [of "of_char c"] by simp
  then show ?thesis using len by simp
qed

lemma scanstring_replace_char: "scanstring (replace_char c @ rest) = push c (scanstring rest)"
proof (cases "ESCAPE_DCT c")
  case None
  then have "c \<noteq> CHR 0x22" "c \<noteq> CHR 0x5C" "\<not> of_char c < (32::nat)"
    by (auto simp: ESCAPE_DCT_def split: if_splits)
  then show ?thesis using None by (simp add: replace_char_def)
next
  case (Some r)
  show ?thesis
  proof (cases "r = [CHR 0x5C, CHR ''u''] @ hex4 (of_char c) \<and> of_char c < (32::nat)")
    case True
    then show ?thesis using Some scanstring_control [of c rest] by (simp add: replace_char_def)
  next
    case False
    then show ?thesis using Some
      by (auto simp: replace_char_def ESCAPE_DCT_def BACKSLASH_def split: if_splits)
  qed
qed

lemma scanstring_concat:
  "scanstring (concat (map replace_char s) @ CHR 0x22 # rest) = Some (s, rest)"
proof (induction s)
  case Nil
  show ?case by simp
next
  case (Cons c s)
  show ?case
    using Cons.IH scanstring_replace_char [of c "concat (map replace_char s) @ CHR 0x22 # rest"]
    by (simp add: push_def)
qed

lemma convert_well_formed: "well_formed mo \<Longrightarrow> \<exists>out. convert m mo = Inr out"
  by (auto simp: well_formed_def convert_def split: option.splits)

lemma well_formed_simps:
  "well_formed (no_group\<lparr>invalid := Some x, group0 := g\<rparr>)"
  "well_formed (no_group\<lparr>escaped := Some x, group0 := g\<rparr>)"
  "well_formed (no_group\<lparr>braced := Some x, group0 := g\<rparr>)"
  "well_formed (no_group\<lparr>named := Some (c # cs), group0 := g\<rparr>)"
  by (simp_all add: well_formed_def no_group_def)

lemma pattern_match_well_formed: "well_formed (fst (pattern_match cs))"
proof (cases cs)
  case Nil
  then show ?thesis by (simp add: pattern_match_def well_formed_simps)
next
  case (Cons c cs')
  show ?thesis
  proof (cases "c = CHR ''$''")
    case True
    then show ?thesis using Cons by (simp add: pattern_match_def well_formed_simps)
  next
    case nd: False
    show ?thesis
    proof (cases "is_id_start c")
      case True
      then have "is_id_char c" by (simp add: is_id_char_def)
      then show ?thesis using Cons nd True
        by (simp add: pattern_match_def well_formed_simps Let_def)
    next
      case False
      then show ?thesis using Cons nd
        by (simp add: pattern_match_def well_formed_simps Let_def split: list.split)
    qed
  qed
qed

lemma convert_pattern_match: "\<exists>out. convert m (fst (pattern_match cs)) = Inr out"
  by (rule convert_well_formed [OF pattern_match_well_formed])

lemma pattern_sub_convert: "\<exists>r. pattern_sub (convert m) t = Inr r"
proof (induction "convert m" t rule: pattern_sub.induct)
  case 1
  show ?case by simp
next
  case (2 c cs)
  show ?case
  proof (cases "c = CHR ''$''")
    case False
    with 2(1) show ?thesis by auto
  next
    case True
    obtain out where out: "convert m (fst (pattern_match cs)) = Inr out"
      using convert_pattern_match by blast
    with 2(2) [OF _ out] True
    obtain r where "pattern_sub (convert m) (snd (pattern_match cs)) = Inr r"
      by auto
    with out True show ?thesis by simp
  qed
qed

lemma safe_substitute_total: "\<exists>r. safe_substitute t kws = Inr r"
  unfolding safe_substitute_def by (rule pattern_sub_convert)

lemma render_content_total: "\<exists>c. render_content e cfg w repo_name release = Inr c"
  using safe_substitute_total [of "the (content w)" "template_kws e cfg repo_name release"]
  by (auto simp: render_content_def split: option.splits)

lemma render_content_rendered:
  "render_content e cfg w repo_name release = Inr (rendered e cfg w repo_name release)"
  using render_content_total [of e cfg w repo_name release] by (auto simp: rendered_def)

lemma pattern_sub_literal:
  "CHR ''$'' \<notin> set pre \<Longrightarrow>
   pattern_sub f (pre @ t) = (case pattern_sub f t of Inl e \<Rightarrow> Inl e | Inr r \<Rightarrow> Inr (pre @ r))"
  by (induction pre) (auto split: sum.splits)

lemma is_id_start_char: "is_id_start c \<Longrightarrow> is_id_char c"
  by (simp add: is_id_char_def)

lemma not_id_brace: "\<not> is_id_char (CHR ''}'')" "\<not> is_id_start (CHR ''{'')" "\<not> is_id_start (CHR ''$'')"
  by (simp_all add: is_id_char_def is_id_start_def)

lemma valid_identifier_chars:
  assumes "valid_identifier k"
  shows "k \<noteq> []" and "is_id_start (hd k)" and "\<forall>x\<in>set k. is_id_char x"
  using assms by (auto simp: valid_identifier_def list_all_iff is_id_start_char split: list.splits)

lemma pattern_match_braced:
  assumes "valid_identifier k"
  shows "pattern_match (''{'' @ k @ ''}'' @ post) =
           (no_group\<lparr>braced := Some k, group0 := ''${'' @ k @ ''}''\<rparr>, post)"
proof -
  obtain c cs where k: "k = c # cs" "is_id_start c"
    using valid_identifier_chars(1,2) [OF assms] by (cases k) auto
  have all: "\<forall>x\<in>set k. is_id_char x"
    by (rule valid_identifier_chars(3) [OF assms])
  have tw: "takeWhile is_id_char (k @ CHR ''}'' # post) = k"
    using all not_id_brace(1) by (simp add: takeWhile_append2 del: takeWhile.simps) (simp add: k)
  have dw: "dropWhile is_id_char (k @ CHR ''}'' # post) = CHR ''}'' # post"
    using all not_id_brace(1) by (simp add: dropWhile_append2)
  show ?thesis
    using tw dw k not_id_brace(2)
    by (simp add: pattern_match_def Let_def)
qed

lemma convert_braced:
  "k \<noteq> [] \<Longrightarrow> convert m (no_group\<lparr>braced := Some k, group0 := g\<rparr>) =
     Inr (case m k of Some v \<Rightarrow> str v | None \<Rightarrow> g)"
  by (simp add: convert_def no_group_def split: option.splits)

lemma safe_substitute_braced:
  assumes "valid_identifier k" and "CHR ''$'' \<notin> set pre"
  shows "safe_substitute (pre @ ''${'' @ k @ ''}'' @ post) kws =
           (case safe_substitute post kws of
              Inl err \<Rightarrow> Inl err
            | Inr r \<Rightarrow>
                Inr (pre @ (case map_of kws k of Some v \<Rightarrow> str v | None \<Rightarrow> ''${'' @ k @ ''}'') @ r))"
proof -
  have k: "k \<noteq> []" by (rule valid_identifier_chars(1) [OF assms(1)])
  have pm: "pattern_match (CHR ''{'' # k @ CHR ''}'' # post) =
           (no_group\<lparr>braced := Some k, group0 := ''${'' @ k @ ''}''\<rparr>, post)"
    using pattern_match_braced [OF assms(1), of post] by simp
  show ?thesis
    unfolding safe_substitute_def
    using pm convert_braced [OF k, of "map_of kws" "''${'' @ k @ ''}''"]
    by (simp add: pattern_sub_literal [OF assms(2)] split: sum.splits)
qed

lemma pattern_match_named:
  assumes "valid_identifier k" and "ends_identifier post"
  shows "pattern_match (k @ post) = (no_group\<lparr>named := Some k, group0 := CHR ''$'' # k\<rparr>, post)"
proof -
  obtain c cs where k: "k = c # cs" "is_id_start c"
    using valid_identifier_chars(1,2) [OF assms(1)] by (cases k) auto
  have all: "\<forall>x\<in>set k. is_id_char x"
    by (rule valid_identifier_chars(3) [OF assms(1)])
  have p: "takeWhile is_id_char post = []" "dropWhile is_id_char post = post"
    using assms(2) by (auto simp: ends_identifier_def split: list.splits)
  have tw: "takeWhile is_id_char (k @ post) = k"
    using all p by (simp add: takeWhile_append2 del: takeWhile.simps)
  have dw: "dropWhile is_id_char (k @ post) = post"
    using all p by (simp add: dropWhile_append2 del: dropWhile.simps)
  have "c \<noteq> CHR ''$''" using k(2) not_id_brace(3) by auto
  then show ?thesis
    using tw dw k by (simp add: pattern_match_def Let_def)
qed

lemma convert_named:
  "k \<noteq> [] \<Longrightarrow> convert m (no_group\<lparr>named := Some k, group0 := g\<rparr>) =
     Inr (case m k of Some v \<Rightarrow> str v | None \<Rightarrow> g)"
  by (simp add: convert_def no_group_def split: option.splits)

lemma safe_substitute_named:
  assumes "valid_identifier k" and "CHR ''$'' \<notin> set pre" and "ends_identifier post"
  shows "safe_substitute (pre @ ''$'' @ k @ post) kws =
           (case safe_substitute post kws of
              Inl err \<Rightarrow> Inl err
            | Inr r \<Rightarrow>
                Inr (pre @ (case map_of kws k of Some v \<Rightarrow> str v | None \<Rightarrow> ''$'' @ k) @ r))"
proof -
  have k: "k \<noteq> []" by (rule valid_identifier_chars(1) [OF assms(1)])
  show ?thesis
    unfolding safe_substitute_def
    using pattern_match_named [OF assms(1,3)] convert_named [OF k, of "map_of kws" "''$'' @ k"]
    by (simp add: pattern_sub_literal [OF assms(2)] split: sum.splits)
qed

lemma render_content_Some:
  "c \<noteq> [] \<Longrightarrow> content w = Some c \<Longrightarrow> safe_substitute c (template_kws e cfg r rel) = Inr out \<Longrightarrow>
   render_content e cfg w r rel = Inr (Some out)"
  by (simp add: render_content_def)

section \<open>The claims about the encoding and the template\<close>

text \<open>
  Claim C6, as amended. For every string \<open>s\<close>, \<open>escape s\<close> is the JSON encoding
  \<^verbatim>\<open>json.dumps(s, ensure_ascii=False)\<close> of \<open>s\<close> without its enclosing quotation
  marks. Reading the quoted escaped value as a JSON string literal gives back \<open>s\<close>
  unchanged, and leaves whatever follows the literal (\<open>rest\<close>) untouched, so the value
  can stand inside any JSON payload. The encoding works character by character; a
  character is copied as it is exactly when it is not the quotation mark, not the
  backslash and not a control character below U+0020: non-ASCII characters are copied,
  not escaped.
\<close>

theorem escape_json_round_trip:
  "[CHR 0x22] @ escape s @ [CHR 0x22] = json_dumps s
   \<and> json_string_literal ([CHR 0x22] @ escape s @ [CHR 0x22] @ rest) = Some (s, rest)
   \<and> escape s = concat (map replace_char s)
   \<and> (replace_char c = [c] \<longleftrightarrow> c \<noteq> CHR 0x22 \<and> c \<noteq> CHR 0x5C \<and> 32 \<le> (of_char c :: nat))"
proof -
  have "replace_char c = [c] \<longleftrightarrow> c \<noteq> CHR 0x22 \<and> c \<noteq> CHR 0x5C \<and> 32 \<le> (of_char c :: nat)"
    by (auto simp: replace_char_def ESCAPE_DCT_def hex4_def)
  moreover have "[CHR 0x22] @ escape s @ [CHR 0x22] = json_dumps s"
    by (simp add: escape_concat json_dumps_def py_encode_basestring_def)
  ultimately show ?thesis
    by (simp add: json_string_literal_def escape_concat scanstring_concat)
qed

text \<open>
  Claim C6 as stated asks for non-ASCII characters to be escaped. The letter U+00E9 is
  not ASCII and \<open>escape\<close> returns it as it is.
\<close>

theorem escape_non_ascii_counterexample:
  "(of_char (CHR 0xE9) :: nat) > 127 \<and> escape [CHR 0xE9] = [CHR 0xE9]"
  by (simp add: escape_concat replace_char_def ESCAPE_DCT_def)

text \<open>
  Claim C7. Rendering the content template never raises: \<open>render_content\<close> returns a
  value for every template and every release, and so does \<open>safe_substitute\<close> for every
  template text and mapping. The mapping handed to the template has exactly the seven
  keys \<^verbatim>\<open>repo_name\<close>, \<^verbatim>\<open>id\<close>, \<^verbatim>\<open>html_url\<close>, \<^verbatim>\<open>tag_name\<close>,
  \<^verbatim>\<open>name\<close>, \<^verbatim>\<open>published_at\<close>, \<^verbatim>\<open>body\<close>, with the values of the
  release: the repository name, the id, the url, the tag, the escaped name (the tag for
  an empty or absent name), the publication time in the configured time zone, and the
  escaped body (empty when absent). In the content the run sends, a placeholder
  \<^verbatim>\<open>${k}\<close> (or \<^verbatim>\<open>$k\<close>) whose identifier \<open>k\<close> is one of these keys is
  replaced by the text of its value, and one whose identifier is not a key stays in the
  output as the literal placeholder text; the text before it is copied and the text
  after it is rendered in the same way. A configured content that is absent or empty is
  sent as it is.
\<close>

theorem template_rendering_never_raises:
  assumes "valid_identifier k" and "CHR ''$'' \<notin> set pre"
  shows "(\<exists>c. render_content e cfg w r rel = Inr c)
       \<and> map fst (template_kws e cfg r rel) =
           [''repo_name'', ''id'', ''html_url'', ''tag_name'', ''name'', ''published_at'', ''body'']
       \<and> (\<exists>out. safe_substitute post kws = Inr out
                \<and> safe_substitute (pre @ ''${'' @ k @ ''}'' @ post) kws =
                    Inr (pre @ (case map_of kws k of Some v \<Rightarrow> str v | None \<Rightarrow> ''${'' @ k @ ''}'') @ out)
                \<and> (ends_identifier post \<longrightarrow>
                    safe_substitute (pre @ ''$'' @ k @ post) kws =
                      Inr (pre @ (case map_of kws k of Some v \<Rightarrow> str v | None \<Rightarrow> ''$'' @ k) @ out)))
       \<and> template_kws e cfg r rel =
           [(''repo_name'', PyStr r),
            (''id'', PyInt (rel_id rel)),
            (''html_url'', PyStr (rel_html_url rel)),
            (''tag_name'', PyStr (rel_tag_name rel)),
            (''name'', PyStr (escape (case rel_name rel of
                                       None \<Rightarrow> rel_tag_name rel
                                     | Some n \<Rightarrow> if n = [] then rel_tag_name rel else n))),
            (''published_at'', PyStr (astimezone_isoformat e (timezone cfg) (rel_published_at rel))),
            (''body'', PyStr (escape (case rel_body rel of None \<Rightarrow> [] | Some b \<Rightarrow> b)))]
       \<and> (\<exists>out. safe_substitute post (template_kws e cfg r rel) = Inr out
                \<and> (content w = Some (pre @ ''${'' @ k @ ''}'' @ post) \<longrightarrow>
                    render_content e cfg w r rel =
                      Inr (Some (pre @ (case map_of (template_kws e cfg r rel) k of
                                          Some v \<Rightarrow> str v
                                        | None \<Rightarrow> ''${'' @ k @ ''}'') @ out)))
                \<and> (content w = Some (pre @ ''$'' @ k @ post) \<and> ends_identifier post \<longrightarrow>
                    render_content e cfg w r rel =
                      Inr (Some (pre @ (case map_of (template_kws e cfg r rel) k of
                                          Some v \<Rightarrow> str v
                                        | None \<Rightarrow> ''$'' @ k) @ out))))
       \<and> (content w = None \<longrightarrow> render_content e cfg w r rel = Inr None)
       \<and> (content w = Some [] \<longrightarrow> render_content e cfg w r rel = Inr (Some []))
       \<and> str (PyStr x) = x \<and> str (PyInt i) = str_int i"
proof -
  let ?kws = "template_kws e cfg r rel"
  have a: "\<exists>c. render_content e cfg w r rel = Inr c"
    by (rule render_content_total)
  have b: "map fst ?kws =
           [''repo_name'', ''id'', ''html_url'', ''tag_name'', ''name'', ''published_at'', ''body'']"
    by (simp add: template_kws_def)
  have gen: "\<exists>out. safe_substitute post m = Inr out
                \<and> safe_substitute (pre @ ''${'' @ k @ ''}'' @ post) m =
                    Inr (pre @ (case map_of m k of Some v \<Rightarrow> str v | None \<Rightarrow> ''${'' @ k @ ''}'') @ out)
                \<and> (ends_identifier post \<longrightarrow>
                    safe_substitute (pre @ ''$'' @ k @ post) m =
                      Inr (pre @ (case map_of m k of Some v \<Rightarrow> str v | None \<Rightarrow> ''$'' @ k) @ out))" for m
  proof -
    obtain out where out: "safe_substitute post m = Inr out"
      using safe_substitute_total by blast
    have "safe_substitute (pre @ ''${'' @ k @ ''}'' @ post) m =
            Inr (pre @ (case map_of m k of Some v \<Rightarrow> str v | None \<Rightarrow> ''${'' @ k @ ''}'') @ out)"
      using safe_substitute_braced [OF assms, of post m] out by simp
    moreover have "safe_substitute (pre @ ''$'' @ k @ post) m =
            Inr (pre @ (case map_of m k of Some v \<Rightarrow> str v | None \<Rightarrow> ''$'' @ k) @ out)"
      if "ends_identifier post"
      using safe_substitute_named [OF assms that, of m] out by simp
    ultimately show ?thesis using out by blast
  qed
  have d: "?kws =
           [(''repo_name'', PyStr r),
            (''id'', PyInt (rel_id rel)),
            (''html_url'', PyStr (rel_html_url rel)),
            (''tag_name'', PyStr (rel_tag_name rel)),
            (''name'', PyStr (escape (case rel_name rel of
                                       None \<Rightarrow> rel_tag_name rel
                                     | Some n \<Rightarrow> if n = [] then rel_tag_name rel else n))),
            (''published_at'', PyStr (astimezone_isoformat e (timezone cfg) (rel_published_at rel))),
            (''body'', PyStr (escape (case rel_body rel of None \<Rightarrow> [] | Some b \<Rightarrow> b)))]"
    by (simp add: template_kws_def name_or_tag_def split: option.splits)
  obtain out where out: "safe_substitute post ?kws = Inr out"
    and braced: "safe_substitute (pre @ ''${'' @ k @ ''}'' @ post) ?kws =
                    Inr (pre @ (case map_of ?kws k of Some v \<Rightarrow> str v | None \<Rightarrow> ''${'' @ k @ ''}'') @ out)"
    and named: "ends_identifier post \<longrightarrow>
                    safe_substitute (pre @ ''$'' @ k @ post) ?kws =
                      Inr (pre @ (case map_of ?kws k of Some v \<Rightarrow> str v | None \<Rightarrow> ''$'' @ k) @ out)"
    using gen [of ?kws] by blast
  have e1: "render_content e cfg w r rel =
              Inr (Some (pre @ (case map_of ?kws k of Some v \<Rightarrow> str v | None \<Rightarrow> ''${'' @ k @ ''}'') @ out))"
    if "content w = Some (pre @ ''${'' @ k @ ''}'' @ post)"
    using render_content_Some [OF _ that braced] by simp
  have e2: "render_content e cfg w r rel =
              Inr (Some (pre @ (case map_of ?kws k of Some v \<Rightarrow> str v | None \<Rightarrow> ''$'' @ k) @ out))"
    if "content w = Some (pre @ ''$'' @ k @ post) \<and> ends_identifier post"
    using render_content_Some [of "pre @ ''$'' @ k @ post" w e cfg r rel] that named by simp
  have f: "content w = None \<longrightarrow> render_content e cfg w r rel = Inr None"
    "content w = Some [] \<longrightarrow> render_content e cfg w r rel = Inr (Some [])"
    by (simp_all add: render_content_def)
  have "\<exists>out. safe_substitute post ?kws = Inr out
                \<and> (content w = Some (pre @ ''${'' @ k @ ''}'' @ post) \<longrightarrow>
                    render_content e cfg w r rel =
                      Inr (Some (pre @ (case map_of ?kws k of
                                          Some v \<Rightarrow> str v
                                        | None \<Rightarrow> ''${'' @ k @ ''}'') @ out)))
                \<and> (content w = Some (pre @ ''$'' @ k @ post) \<and> ends_identifier post \<longrightarrow>
                    render_content e cfg w r rel =
                      Inr (Some (pre @ (case map_of ?kws k of
                                          Some v \<Rightarrow> str v
                                        | None \<Rightarrow> ''$'' @ k) @ out)))"
    using out e1 e2 by blast
  then show ?thesis using a b gen [of kws] d f by simp
qed

text \<open>The two templates of the specification's scenario.\<close>

lemma valid_identifier_tag_name: "valid_identifier ''tag_name''" "valid_identifier ''missing''"
  by (simp_all add: valid_identifier_def is_id_start_def is_id_char_def)

lemma safe_substitute_Nil: "safe_substitute [] kws = Inr []"
  by (simp add: safe_substitute_def)

theorem template_rendering_never_raises_witness:
  "render_content env_ok cfg_ab (hook\<lparr>content := Some ''Release ${tag_name}''\<rparr>) ''a/b'' release_v3 =
     Inr (Some ''Release v3'')
   \<and> render_content env_ok cfg_ab (hook\<lparr>content := Some ''Hi ${missing}''\<rparr>) ''a/b'' release_v3 =
       Inr (Some ''Hi ${missing}'')
   \<and> render_content env_ok cfg_ab
         (hook\<lparr>content := Some ''${repo_name} ${id} ${html_url} $tag_name ${name} ${published_at} [${body}] $$ ${missing}''\<rparr>)
         ''a/b'' release_v3 =
       Inr (Some (''a/b 1024 https://example.org/a/b/v3 v3 a'' @ [CHR 0x5C, CHR 0x22]
                  @ ''b 2024-02-01T00:00:00+00:00 [] $ ${missing}''))"
proof -
  have kws: "map_of (template_kws env_ok cfg_ab ''a/b'' release_v3) ''tag_name'' = Some (PyStr ''v3'')"
    "map_of (template_kws env_ok cfg_ab ''a/b'' release_v3) ''missing'' = None"
    by (simp_all add: template_kws_def release_v3_def)
  have a: "render_content env_ok cfg_ab (hook\<lparr>content := Some ''Release ${tag_name}''\<rparr>) ''a/b'' release_v3 =
     Inr (Some ''Release v3'')"
    using template_rendering_never_raises
            [OF valid_identifier_tag_name(1),
             of "''Release ''" env_ok cfg_ab "hook\<lparr>content := Some ''Release ${tag_name}''\<rparr>"
                "''a/b''" release_v3 "[]" "[]"]
    by (simp add: safe_substitute_Nil kws)
  have b: "render_content env_ok cfg_ab (hook\<lparr>content := Some ''Hi ${missing}''\<rparr>) ''a/b'' release_v3 =
       Inr (Some ''Hi ${missing}'')"
    using template_rendering_never_raises
            [OF valid_identifier_tag_name(2),
             of "''Hi ''" env_ok cfg_ab "hook\<lparr>content := Some ''Hi ${missing}''\<rparr>"
                "''a/b''" release_v3 "[]" "[]"]
    by (simp add: safe_substitute_Nil kws)
  have c: "render_content env_ok cfg_ab
         (hook\<lparr>content := Some ''${repo_name} ${id} ${html_url} $tag_name ${name} ${published_at} [${body}] $$ ${missing}''\<rparr>)
         ''a/b'' release_v3 =
       Inr (Some (''a/b 1024 https://example.org/a/b/v3 v3 a'' @ [CHR 0x5C, CHR 0x22]
                  @ ''b 2024-02-01T00:00:00+00:00 [] $ ${missing}''))"
    by code_simp
  show ?thesis using a b c by simp
qed

section \<open>Properties of the pass\<close>

lemma process_repo_fetch_failed:
  "get_latest_release e r = Inl msg \<Longrightarrow>
   process_repo e cfg s r = (s, [GetLatestRelease r], Some (GithubException r msg))"
  by (simp add: process_repo_def)

lemma process_repo_skipped:
  "get_latest_release e r = Inr rel \<Longrightarrow> skipped cfg rel \<Longrightarrow>
   process_repo e cfg s r = (s, [GetLatestRelease r], None)"
  by (simp add: process_repo_def skipped_def)

lemma process_repo_recorded:
  assumes "get_latest_release e r = Inr rel" and "\<not> skipped cfg rel"
  shows "process_repo e cfg s r =
           (s(r \<mapsto> new_state rel),
            GetLatestRelease r #
              (if no_new_release (s r) rel then [Log INFO (r @ '': No new release'')]
               else new_release_record e r rel # notification_events e cfg r rel),
            None)"
  using assms
  by (simp add: process_repo_def skipped_def notification_events_def new_release_record_def
                render_content_rendered split: option.splits)

lemma posts_simps:
  "posts [] = []"
  "posts (GetLatestRelease r # evs) = posts evs"
  "posts (Log l m # evs) = posts evs"
  "posts (HttpPost u c d h # evs) = HttpPost u c d h # posts evs"
  "posts (xs @ ys) = posts xs @ posts ys"
  by (simp_all add: posts_def)

lemma posts_send_notification:
  "posts (send_notification e w r c) = [HttpPost (url w) c (data w) (headers w)]"
  by (simp add: posts_def send_notification_def split: sum.splits)

lemma posts_notification_events:
  "posts (notification_events e cfg r rel) =
     (case webhook cfg of
        None \<Rightarrow> []
      | Some w \<Rightarrow> [HttpPost (url w) (rendered e cfg w r rel) (data w) (headers w)])"
  by (simp add: notification_events_def posts_send_notification posts_simps split: option.splits)

lemma posts_new_release_record: "posts (new_release_record e r rel # evs) = posts evs"
  by (simp add: new_release_record_def posts_def)

lemma send_notification_failed:
  "delivery_failed e w c \<Longrightarrow>
   \<exists>x. send_notification e w r c =
         [HttpPost (url w) c (data w) (headers w),
          Log ERROR (r @ '': Failed to send notification: '' @ str_exn e x)]"
  by (auto simp: delivery_failed_def send_notification_def split: sum.splits)

lemma process_repos_append:
  "process_repos e cfg s (xs @ ys) =
     (case process_repos e cfg s xs of
        (s1, ev1, Some err) \<Rightarrow> (s1, ev1, Some err)
      | (s1, ev1, None) \<Rightarrow>
          (case process_repos e cfg s1 ys of (s2, ev2, r) \<Rightarrow> (s2, ev1 @ ev2, r)))"
proof (induction xs arbitrary: s)
  case Nil
  show ?case by (simp split: prod.splits)
next
  case (Cons x xs)
  show ?case
    by (simp add: Cons.IH split: prod.splits option.splits)
qed

lemma process_repo_keeps_settled:
  assumes "process_repo e cfg s r = (s', evs, None)" and "settled e cfg s q"
  shows "settled e cfg s' q"
proof (cases "get_latest_release e r")
  case (Inl msg)
  then show ?thesis using assms by (simp add: process_repo_fetch_failed)
next
  case (Inr rel)
  show ?thesis
  proof (cases "skipped cfg rel")
    case True
    then show ?thesis using assms Inr by (simp add: process_repo_skipped)
  next
    case False
    then have "s' = s(r \<mapsto> new_state rel)"
      using assms(1) Inr by (simp add: process_repo_recorded)
    then show ?thesis using assms(2) Inr False
      by (cases "q = r") (auto simp: settled_def split: sum.splits)
  qed
qed

lemma process_repo_settles:
  assumes "process_repo e cfg s r = (s', evs, None)"
  shows "settled e cfg s' r"
proof (cases "get_latest_release e r")
  case (Inl msg)
  then show ?thesis using assms by (simp add: process_repo_fetch_failed)
next
  case (Inr rel)
  then show ?thesis using assms
    by (cases "skipped cfg rel") (auto simp: settled_def process_repo_skipped process_repo_recorded)
qed

lemma process_repos_keeps_settled:
  "process_repos e cfg s rs = (s', evs, None) \<Longrightarrow> settled e cfg s q \<Longrightarrow> settled e cfg s' q"
proof (induction rs arbitrary: s evs)
  case Nil
  then show ?case by simp
next
  case (Cons r rs)
  obtain s1 ev1 err1 where step: "process_repo e cfg s r = (s1, ev1, err1)"
    by (cases "process_repo e cfg s r") auto
  show ?case
  proof (cases err1)
    case (Some x)
    then show ?thesis using Cons.prems step by simp
  next
    case None
    obtain s2 ev2 err2 where rest: "process_repos e cfg s1 rs = (s2, ev2, err2)"
      by (cases "process_repos e cfg s1 rs") auto
    have "s2 = s'" "err2 = None" using Cons.prems(1) step None rest by simp_all
    moreover have "settled e cfg s1 q"
      using process_repo_keeps_settled step None Cons.prems(2) by blast
    ultimately show ?thesis using Cons.IH rest by blast
  qed
qed

lemma process_repos_settles:
  "process_repos e cfg s rs = (s', evs, None) \<Longrightarrow> list_all (settled e cfg s') rs"
proof (induction rs arbitrary: s evs)
  case Nil
  then show ?case by simp
next
  case (Cons r rs)
  obtain s1 ev1 err1 where step: "process_repo e cfg s r = (s1, ev1, err1)"
    by (cases "process_repo e cfg s r") auto
  show ?case
  proof (cases err1)
    case (Some x)
    then show ?thesis using Cons.prems step by simp
  next
    case None
    obtain s2 ev2 err2 where rest: "process_repos e cfg s1 rs = (s2, ev2, err2)"
      by (cases "process_repos e cfg s1 rs") auto
    have eq: "s2 = s'" "err2 = None" using Cons.prems(1) step None rest by simp_all
    have "settled e cfg s1 r" using process_repo_settles step None by blast
    then have "settled e cfg s' r"
      using process_repos_keeps_settled rest eq by blast
    moreover have "list_all (settled e cfg s') rs" using Cons.IH rest eq by blast
    ultimately show ?thesis by simp
  qed
qed

lemma process_repo_settled:
  assumes "settled e cfg s r"
  shows "\<exists>evs. process_repo e cfg s r = (s, evs, None) \<and> posts evs = []"
proof -
  obtain rel where rel: "get_latest_release e r = Inr rel"
    and st: "skipped cfg rel \<or> s r = Some (new_state rel)"
    using assms by (auto simp: settled_def split: sum.splits)
  show ?thesis
  proof (cases "skipped cfg rel")
    case True
    then show ?thesis using rel by (simp add: process_repo_skipped posts_simps)
  next
    case False
    then have sr: "s r = Some (new_state rel)" using st by simp
    then have "s(r \<mapsto> new_state rel) = s" by (simp add: fun_upd_idem)
    moreover have "no_new_release (s r) rel"
      using sr by (simp add: no_new_release_def new_state_def)
    ultimately show ?thesis using rel False
      by (simp add: process_repo_recorded posts_simps)
  qed
qed

lemma process_repos_settled:
  "list_all (settled e cfg s) rs \<Longrightarrow>
   \<exists>evs. process_repos e cfg s rs = (s, evs, None) \<and> posts evs = []"
proof (induction rs)
  case Nil
  show ?case by (simp add: posts_simps)
next
  case (Cons r rs)
  obtain ev1 where "process_repo e cfg s r = (s, ev1, None)" "posts ev1 = []"
    using process_repo_settled Cons.prems by fastforce
  moreover obtain ev2 where "process_repos e cfg s rs = (s, ev2, None)" "posts ev2 = []"
    using Cons by auto
  ultimately show ?case by (simp add: posts_simps)
qed

lemma process_repos_idempotent:
  assumes "process_repos e cfg s0 rs = (s1, evs1, None)"
  shows "\<exists>evs2. process_repos e cfg s1 rs = (s1, evs2, None) \<and> posts evs2 = []"
  using process_repos_settled [OF process_repos_settles [OF assms]] .

lemma render_content_state_file:
  "render_content (e\<lparr>state_file_content := x\<rparr>) cfg w r rel = render_content e cfg w r rel"
  by (simp add: render_content_def template_kws_def split: option.splits sum.splits)

lemma send_notification_state_file:
  "send_notification (e\<lparr>state_file_content := x\<rparr>) w r c = send_notification e w r c"
  by (simp add: send_notification_def split: sum.splits)

lemma process_repo_state_file:
  "process_repo (e\<lparr>state_file_content := x\<rparr>) cfg s r = process_repo e cfg s r"
  by (simp add: process_repo_def render_content_state_file send_notification_state_file Let_def
           split: sum.splits option.splits)

lemma process_repos_state_file:
  "process_repos (e\<lparr>state_file_content := x\<rparr>) cfg s rs = process_repos e cfg s rs"
  by (induction rs arbitrary: s) (simp_all add: process_repo_state_file)

lemma main_completed:
  assumes "main e cfg = \<lparr>raised = None, dumped = Some s1, events = evs1\<rparr>"
  shows "zone_available e (timezone cfg)"
    and "\<exists>s0. load_state e = Inr s0 \<and> process_repos e cfg s0 (repos cfg) = (s1, evs1, None)"
  using assms
  by (auto simp: main_def split: if_splits sum.splits prod.splits option.splits)

subsection \<open>The sample run\<close>

lemma sample_render:
  "render_content e cfg hook r release_v2 = Inr (Some ''Release v2'')"
proof -
  have "valid_identifier ''tag_name''"
    by (simp add: valid_identifier_def is_id_start_def is_id_char_def)
  then have "safe_substitute ''Release ${tag_name}'' (template_kws e cfg r release_v2) = Inr ''Release v2''"
    using safe_substitute_braced [of "''tag_name''" "''Release ''" "[]" "template_kws e cfg r release_v2"]
    by (simp add: safe_substitute_def template_kws_def release_v2_def)
  then show ?thesis by (simp add: render_content_def hook_def)
qed

lemma sample_rendered: "rendered e cfg hook r release_v2 = Some ''Release v2''"
  by (simp add: rendered_def sample_render)

lemma sample_hook:
  "url hook = ''https://example.org/hook''" "data hook = None" "headers hook = None"
  by (simp_all add: hook_def)

lemma sample_cfg: "webhook cfg_ab = Some hook" "repos cfg_ab = [''a/b'']" "timezone cfg_ab = ''UTC''"
  by (simp_all add: cfg_ab_def)

lemma sample_post: "httpx_post env_ok u c d h = Inr 204"
  by (simp add: env_ok_def)

lemma sample_not_skipped: "\<not> skipped cfg release_v2"
  by (simp add: skipped_def release_v2_def)

lemma sample_notification:
  "notification_events env_ok cfg_ab r release_v2 =
     [HttpPost ''https://example.org/hook'' (Some ''Release v2'') None None,
      Log DEBUG (r @ '': Notification sent'')]"
  by (simp add: notification_events_def sample_cfg sample_rendered send_notification_def
                sample_hook sample_post is_success_def)

lemma sample_first_pass:
  "process_repo env_ok cfg_ab Map.empty ''a/b'' =
     ([''a/b'' \<mapsto> new_state release_v2],
      [GetLatestRelease ''a/b'', new_release_record env_ok ''a/b'' release_v2,
       HttpPost ''https://example.org/hook'' (Some ''Release v2'') None None,
       Log DEBUG ''a/b: Notification sent''],
      None)"
proof -
  have "get_latest_release env_ok ''a/b'' = Inr release_v2" by (simp add: env_ok_def)
  then show ?thesis
    using process_repo_recorded [of env_ok "''a/b''" release_v2 cfg_ab Map.empty]
    by (simp add: sample_not_skipped sample_notification no_new_release_def)
qed

lemma sample_main:
  "main env_ok cfg_ab =
     \<lparr>raised = None, dumped = Some [''a/b'' \<mapsto> new_state release_v2],
      events = [GetLatestRelease ''a/b'', new_release_record env_ok ''a/b'' release_v2,
                HttpPost ''https://example.org/hook'' (Some ''Release v2'') None None,
                Log DEBUG ''a/b: Notification sent'']\<rparr>"
proof -
  have "zone_available env_ok (timezone cfg_ab)" "load_state env_ok = Inr Map.empty"
       "repos cfg_ab = [''a/b'']"
    by (simp_all add: env_ok_def cfg_ab_def load_state_def)
  then show ?thesis by (simp add: main_def sample_first_pass)
qed

section \<open>The claims about the pass\<close>

text \<open>
  Claim C1, as amended. When the fetch succeeds, the release is not a skipped draft and
  the state map has no entry for the repository, the pass records the current snapshot
  and treats the release as new: it logs the new release and, when a webhook is
  configured, renders the content and sends exactly one request; with no webhook
  configured it sends none. The first observation is recorded but not silent.
\<close>

theorem first_observation_is_notified:
  assumes "get_latest_release e r = Inr rel" and "\<not> skipped cfg rel" and "s r = None"
  shows "process_repo e cfg s r =
           (s(r \<mapsto> new_state rel),
            GetLatestRelease r # new_release_record e r rel # notification_events e cfg r rel,
            None)
       \<and> posts (fst (snd (process_repo e cfg s r))) =
           (case webhook cfg of
              None \<Rightarrow> []
            | Some w \<Rightarrow> [HttpPost (url w) (rendered e cfg w r rel) (data w) (headers w)])"
  using assms
  by (simp add: process_repo_recorded no_new_release_def posts_simps posts_new_release_record
                posts_notification_events)

theorem first_observation_is_notified_witness:
  "posts (fst (snd (process_repo env_ok cfg_ab Map.empty ''a/b''))) =
     [HttpPost ''https://example.org/hook'' (Some ''Release v2'') None None]"
proof -
  have "get_latest_release env_ok ''a/b'' = Inr release_v2" by (simp add: env_ok_def)
  then show ?thesis
    using first_observation_is_notified
            [of env_ok "''a/b''" release_v2 cfg_ab Map.empty, THEN conjunct2]
    by (simp add: sample_not_skipped sample_rendered sample_cfg sample_hook)
qed

text \<open>
  Claim C1 as stated: no notification for a repository without a stored entry. In the
  sample run there is no state file, \<^verbatim>\<open>a/b\<close> is the only repository, and the run
  stores its snapshot and sends one request.
\<close>

theorem first_observation_silent_counterexample:
  "state_file_content env_ok = None
   \<and> repos cfg_ab = [''a/b'']
   \<and> dumped (main env_ok cfg_ab) = Some [''a/b'' \<mapsto> new_state release_v2]
   \<and> posts (events (main env_ok cfg_ab)) =
       [HttpPost ''https://example.org/hook'' (Some ''Release v2'') None None]"
  by (simp add: sample_main posts_simps posts_new_release_record) (simp add: env_ok_def cfg_ab_def)

text \<open>
  Claim C2, as amended. When the fetch of a repository fails, with not-found or any
  other error, nothing in the pass catches the exception: that repository's entry in
  the state map is not overwritten and no notification is sent for it, but the run ends
  there with the exception. The repositories after it in the list are not processed and
  the state file is not written; what the run did for the repositories before it
  (\<open>evs1\<close>) has happened.
\<close>

theorem fetch_failure_ends_the_run:
  assumes "zone_available e (timezone cfg)" and "load_state e = Inr s0"
    and "repos cfg = before @ r # later"
    and "process_repos e cfg s0 before = (s1, evs1, None)"
    and "get_latest_release e r = Inl msg"
  shows "process_repo e cfg s1 r = (s1, [GetLatestRelease r], Some (GithubException r msg))
       \<and> main e cfg =
           \<lparr>raised = Some (GithubException r msg), dumped = None,
            events = evs1 @ [GetLatestRelease r]\<rparr>"
  using assms
  by (simp add: main_def process_repos_append process_repo_fetch_failed)

theorem fetch_failure_ends_the_run_witness:
  "main (env_ok\<lparr>get_latest_release := (\<lambda>r. if r = ''c/d'' then Inl ''404'' else Inr release_v2)\<rparr>)
        (cfg_ab\<lparr>repos := [''c/d'', ''a/b'']\<rparr>) =
     \<lparr>raised = Some (GithubException ''c/d'' ''404''), dumped = None,
      events = [GetLatestRelease ''c/d'']\<rparr>"
  using fetch_failure_ends_the_run
          [of "env_ok\<lparr>get_latest_release := (\<lambda>r. if r = ''c/d'' then Inl ''404'' else Inr release_v2)\<rparr>"
              "cfg_ab\<lparr>repos := [''c/d'', ''a/b'']\<rparr>" Map.empty "[]" "''c/d''" "[''a/b'']"
              Map.empty "[]" "''404''"]
  by (simp add: env_ok_def cfg_ab_def load_state_def)

text \<open>
  Claim C2 as stated: after a failed fetch the later repositories are still processed
  and the state is still saved. With \<^verbatim>\<open>c/d\<close> failing before \<^verbatim>\<open>a/b\<close>, the run
  dumps no state and never queries \<^verbatim>\<open>a/b\<close>.
\<close>

theorem fetch_failure_skipped_counterexample:
  "dumped (main (env_ok\<lparr>get_latest_release := (\<lambda>r. if r = ''c/d'' then Inl ''404'' else Inr release_v2)\<rparr>)
                (cfg_ab\<lparr>repos := [''c/d'', ''a/b'']\<rparr>)) = None
   \<and> GetLatestRelease ''a/b'' \<notin>
       set (events (main (env_ok\<lparr>get_latest_release := (\<lambda>r. if r = ''c/d'' then Inl ''404'' else Inr release_v2)\<rparr>)
                         (cfg_ab\<lparr>repos := [''c/d'', ''a/b'']\<rparr>)))"
  by (simp add: main_def env_ok_def cfg_ab_def load_state_def process_repo_def)

text \<open>The stored release of the sample precedes the latest one.\<close>

lemma sample_prior_pass:
  "get_latest_release env_ok ''a/b'' = Inr release_v2"
  "published_at state_v1 < rel_published_at release_v2"
  by (simp_all add: env_ok_def state_v1_def release_v2_def)

text \<open>
  Claim C3. Let the repository have a stored entry \<open>p\<close> and let the fetched release
  pass the draft filter. In every case the stored entry becomes the current snapshot
  (id, url, tag, name or tag, publication time) and no exception is raised. The release
  counts as new, with its log record and the notification of the configured webhook,
  exactly when its publication time is strictly later than the stored one; when it is
  equal or earlier the pass logs that there is no new release and sends nothing. With a
  webhook configured, exactly one request is sent in the first case and none in the
  second; with no webhook configured the new release is logged and there is nothing to
  send a request to.
\<close>

theorem notification_iff_strictly_newer:
  assumes "get_latest_release e r = Inr rel" and "\<not> skipped cfg rel" and "s r = Some p"
  shows "(\<not> no_new_release (s r) rel) = (published_at p < rel_published_at rel)
       \<and> fst (process_repo e cfg s r) =
           s(r \<mapsto> \<lparr>id' = rel_id rel, html_url = rel_html_url rel, tag_name = rel_tag_name rel,
                    name = (case rel_name rel of
                              None \<Rightarrow> rel_tag_name rel
                            | Some n \<Rightarrow> if n = [] then rel_tag_name rel else n),
                    published_at = rel_published_at rel\<rparr>)
       \<and> snd (process_repo e cfg s r) =
           (GetLatestRelease r #
              (if published_at p < rel_published_at rel
               then new_release_record e r rel # notification_events e cfg r rel
               else [Log INFO (r @ '': No new release'')]),
            None)
       \<and> posts (fst (snd (process_repo e cfg s r))) =
           (if published_at p < rel_published_at rel
            then (case webhook cfg of
                    None \<Rightarrow> []
                  | Some w \<Rightarrow> [HttpPost (url w) (rendered e cfg w r rel) (data w) (headers w)])
            else [])"
proof -
  have "new_state rel =
          \<lparr>id' = rel_id rel, html_url = rel_html_url rel, tag_name = rel_tag_name rel,
           name = (case rel_name rel of
                     None \<Rightarrow> rel_tag_name rel
                   | Some n \<Rightarrow> if n = [] then rel_tag_name rel else n),
           published_at = rel_published_at rel\<rparr>"
    by (simp add: new_state_def name_or_tag_def split: option.splits)
  then show ?thesis
    using assms
    by (simp add: process_repo_recorded no_new_release_def posts_simps
                  posts_new_release_record posts_notification_events not_less)
qed

theorem notification_iff_strictly_newer_witness:
  "fst (process_repo env_ok cfg_ab [''a/b'' \<mapsto> state_v1] ''a/b'') ''a/b'' = Some (new_state release_v2)
   \<and> tag_name (new_state release_v2) = ''v2''
   \<and> fst (process_repo env_ok cfg_ab [''a/b'' \<mapsto> state_v1] ''a/b'') ''a/b'' =
       Some \<lparr>id' = 2, html_url = ''https://example.org/a/b/v2'', tag_name = ''v2'',
             name = ''Second'', published_at = 1706745600\<rparr>
   \<and> posts (fst (snd (process_repo env_ok cfg_ab [''a/b'' \<mapsto> state_v1] ''a/b''))) =
       [HttpPost ''https://example.org/hook'' (Some ''Release v2'') None None]
   \<and> posts (fst (snd (process_repo env_ok cfg_ab [''a/b'' \<mapsto> new_state release_v2] ''a/b''))) = []"
proof -
  have a: "posts (fst (snd (process_repo env_ok cfg_ab [''a/b'' \<mapsto> state_v1] ''a/b''))) =
       [HttpPost ''https://example.org/hook'' (Some ''Release v2'') None None]"
    using notification_iff_strictly_newer
            [of env_ok "''a/b''" release_v2 cfg_ab "[''a/b'' \<mapsto> state_v1]" state_v1,
             THEN conjunct2, THEN conjunct2, THEN conjunct2]
    by (simp add: sample_prior_pass sample_not_skipped sample_rendered sample_cfg sample_hook)
  have b: "posts (fst (snd (process_repo env_ok cfg_ab [''a/b'' \<mapsto> new_state release_v2] ''a/b''))) = []"
    using notification_iff_strictly_newer
            [of env_ok "''a/b''" release_v2 cfg_ab "[''a/b'' \<mapsto> new_state release_v2]"
                "new_state release_v2", THEN conjunct2, THEN conjunct2, THEN conjunct2]
    by (simp add: sample_prior_pass sample_not_skipped new_state_def)
  have c: "fst (process_repo env_ok cfg_ab [''a/b'' \<mapsto> state_v1] ''a/b'') ''a/b'' = Some (new_state release_v2)"
    using notification_iff_strictly_newer
            [of env_ok "''a/b''" release_v2 cfg_ab "[''a/b'' \<mapsto> state_v1]" state_v1,
             THEN conjunct2, THEN conjunct1]
    by (simp add: sample_prior_pass sample_not_skipped new_state_def)
       (simp add: name_or_tag_def release_v2_def)
  have d: "fst (process_repo env_ok cfg_ab [''a/b'' \<mapsto> state_v1] ''a/b'') ''a/b'' =
       Some \<lparr>id' = 2, html_url = ''https://example.org/a/b/v2'', tag_name = ''v2'',
             name = ''Second'', published_at = 1706745600\<rparr>"
    using notification_iff_strictly_newer
            [of env_ok "''a/b''" release_v2 cfg_ab "[''a/b'' \<mapsto> state_v1]" state_v1,
             THEN conjunct2, THEN conjunct1]
    by (simp add: sample_prior_pass sample_not_skipped) (simp add: release_v2_def)
  have "tag_name (new_state release_v2) = ''v2''" by (simp add: new_state_def release_v2_def)
  then show ?thesis using a b c d by simp
qed

text \<open>
  Claim C4. When \<^verbatim>\<open>skip_draft\<close> is set and the fetched release is a draft, the
  pass leaves the whole state map as it was, so the repository's entry is unchanged,
  present or absent, and it sends no request and logs nothing, whatever the state map
  held before.
\<close>

theorem draft_leaves_state_untouched:
  assumes "get_latest_release e r = Inr rel" and "skip_draft cfg" and "rel_draft rel"
  shows "process_repo e cfg s r = (s, [GetLatestRelease r], None)
       \<and> fst (process_repo e cfg s r) r = s r
       \<and> posts (fst (snd (process_repo e cfg s r))) = []"
  using assms by (simp add: process_repo_skipped skipped_def posts_simps)

theorem draft_leaves_state_untouched_witness:
  "process_repo (env_ok\<lparr>get_latest_release := (\<lambda>r. Inr (release_v2\<lparr>rel_draft := True\<rparr>))\<rparr>)
       cfg_ab [''a/b'' \<mapsto> state_v1] ''a/b'' =
     ([''a/b'' \<mapsto> state_v1], [GetLatestRelease ''a/b''], None)
   \<and> process_repo (env_ok\<lparr>get_latest_release := (\<lambda>r. Inr (release_v2\<lparr>rel_draft := True\<rparr>))\<rparr>)
       cfg_ab Map.empty ''a/b'' = (Map.empty, [GetLatestRelease ''a/b''], None)"
  using draft_leaves_state_untouched
          [of "env_ok\<lparr>get_latest_release := (\<lambda>r. Inr (release_v2\<lparr>rel_draft := True\<rparr>))\<rparr>"
              "''a/b''" "release_v2\<lparr>rel_draft := True\<rparr>" cfg_ab "[''a/b'' \<mapsto> state_v1]"]
        draft_leaves_state_untouched
          [of "env_ok\<lparr>get_latest_release := (\<lambda>r. Inr (release_v2\<lparr>rel_draft := True\<rparr>))\<rparr>"
              "''a/b''" "release_v2\<lparr>rel_draft := True\<rparr>" cfg_ab Map.empty]
  by (simp add: cfg_ab_def)

text \<open>
  Claim C5. Let a release count as new with a webhook configured, and let the delivery
  fail, by an exception of the transport or by a status outside 2xx. Then the body of
  the loop raises nothing: the failure is an error record of the log, the state map
  holds the new snapshot of the repository, and the loop goes on with the remaining
  repositories from that state map, its outcome being theirs.
\<close>

theorem delivery_failure_is_contained:
  assumes "get_latest_release e r = Inr rel" and "\<not> skipped cfg rel"
    and "\<not> no_new_release (s r) rel" and "webhook cfg = Some w"
    and "delivery_failed e w (rendered e cfg w r rel)"
  shows "\<exists>x. process_repo e cfg s r =
               (s(r \<mapsto> new_state rel),
                [GetLatestRelease r, new_release_record e r rel,
                 HttpPost (url w) (rendered e cfg w r rel) (data w) (headers w),
                 Log ERROR (r @ '': Failed to send notification: '' @ str_exn e x)],
                None)
            \<and> process_repos e cfg s (r # later) =
                (case process_repos e cfg (s(r \<mapsto> new_state rel)) later of
                   (s2, evs2, err) \<Rightarrow>
                     (s2,
                      [GetLatestRelease r, new_release_record e r rel,
                       HttpPost (url w) (rendered e cfg w r rel) (data w) (headers w),
                       Log ERROR (r @ '': Failed to send notification: '' @ str_exn e x)] @ evs2,
                      err))"
proof -
  obtain x where "send_notification e w r (rendered e cfg w r rel) =
         [HttpPost (url w) (rendered e cfg w r rel) (data w) (headers w),
          Log ERROR (r @ '': Failed to send notification: '' @ str_exn e x)]"
    using send_notification_failed [OF assms(5)] by blast
  then have "process_repo e cfg s r =
               (s(r \<mapsto> new_state rel),
                [GetLatestRelease r, new_release_record e r rel,
                 HttpPost (url w) (rendered e cfg w r rel) (data w) (headers w),
                 Log ERROR (r @ '': Failed to send notification: '' @ str_exn e x)],
                None)"
    using assms(1-4) by (simp add: process_repo_recorded notification_events_def)
  then show ?thesis by (intro exI [of _ x]) simp
qed

theorem delivery_failure_is_contained_witness:
  "main (env_ok\<lparr>httpx_post := (\<lambda>u c d h. Inr 500)\<rparr>) cfg_ab =
     \<lparr>raised = None, dumped = Some [''a/b'' \<mapsto> new_state release_v2],
      events = [GetLatestRelease ''a/b'',
                new_release_record (env_ok\<lparr>httpx_post := (\<lambda>u c d h. Inr 500)\<rparr>) ''a/b'' release_v2,
                HttpPost ''https://example.org/hook'' (Some ''Release v2'') None None,
                Log ERROR ''a/b: Failed to send notification: bad status'']\<rparr>"
proof -
  let ?e = "env_ok\<lparr>httpx_post := (\<lambda>u c d h. Inr 500)\<rparr>"
  have pre: "get_latest_release ?e ''a/b'' = Inr release_v2"
    "\<not> no_new_release (Map.empty ''a/b'') release_v2"
    "delivery_failed ?e hook (rendered ?e cfg_ab hook ''a/b'' release_v2)"
    by (simp_all add: env_ok_def no_new_release_def delivery_failed_def is_success_def)
  obtain x where x: "process_repo ?e cfg_ab Map.empty ''a/b'' =
               ([''a/b'' \<mapsto> new_state release_v2],
                [GetLatestRelease ''a/b'', new_release_record ?e ''a/b'' release_v2,
                 HttpPost (url hook) (rendered ?e cfg_ab hook ''a/b'' release_v2) (data hook) (headers hook),
                 Log ERROR (''a/b'' @ '': Failed to send notification: '' @ str_exn ?e x)],
                None)"
    using delivery_failure_is_contained
            [of ?e "''a/b''" release_v2 cfg_ab Map.empty hook "[]", OF pre(1) sample_not_skipped
                pre(2) sample_cfg(1) pre(3)]
    by auto
  have "process_repo ?e cfg_ab Map.empty ''a/b'' =
          (fst (process_repo ?e cfg_ab Map.empty ''a/b''),
           [GetLatestRelease ''a/b'', new_release_record ?e ''a/b'' release_v2,
            HttpPost ''https://example.org/hook'' (Some ''Release v2'') None None,
            Log ERROR ''a/b: Failed to send notification: bad status''],
           None)"
    using pre(1) sample_not_skipped [of cfg_ab] pre(2)
    by (simp add: process_repo_recorded notification_events_def sample_cfg sample_rendered
                  send_notification_def sample_hook is_success_def)
       (simp add: env_ok_def)
  with x have "process_repo ?e cfg_ab Map.empty ''a/b'' =
          ([''a/b'' \<mapsto> new_state release_v2],
           [GetLatestRelease ''a/b'', new_release_record ?e ''a/b'' release_v2,
            HttpPost ''https://example.org/hook'' (Some ''Release v2'') None None,
            Log ERROR ''a/b: Failed to send notification: bad status''],
           None)"
    by simp
  moreover have "zone_available ?e (timezone cfg_ab)" "load_state ?e = Inr Map.empty"
    by (simp_all add: env_ok_def cfg_ab_def load_state_def)
  ultimately show ?thesis by (simp add: main_def sample_cfg)
qed

text \<open>
  Claim C8. Let a run complete and dump the state map \<open>s1\<close>, and let a second run,
  with the same settings and the same answers of the release source, start from a state
  file that reads back as \<open>s1\<close>. Then the second run completes, dumps the same state
  map \<open>s1\<close>, and sends no request.
\<close>

theorem second_pass_is_idempotent:
  assumes "main e cfg = \<lparr>raised = None, dumped = Some s1, events = evs1\<rparr>"
    and "parse_state_file e txt = Some s1"
  shows "raised (main (e\<lparr>state_file_content := Some txt\<rparr>) cfg) = None
       \<and> dumped (main (e\<lparr>state_file_content := Some txt\<rparr>) cfg) = Some s1
       \<and> posts (events (main (e\<lparr>state_file_content := Some txt\<rparr>) cfg)) = []"
proof -
  let ?e = "e\<lparr>state_file_content := Some txt\<rparr>"
  obtain s0 where first: "process_repos e cfg s0 (repos cfg) = (s1, evs1, None)"
    using main_completed(2) [OF assms(1)] by blast
  obtain evs2 where second: "process_repos e cfg s1 (repos cfg) = (s1, evs2, None)"
    and quiet: "posts evs2 = []"
    using process_repos_idempotent [OF first] by blast
  have "zone_available ?e (timezone cfg)"
    using main_completed(1) [OF assms(1)] by simp
  moreover have "load_state ?e = Inr s1"
    using assms(2) by (simp add: load_state_def)
  moreover have "process_repos ?e cfg s1 (repos cfg) = (s1, evs2, None)"
    using second by (simp add: process_repos_state_file)
  ultimately have "main ?e cfg = \<lparr>raised = None, dumped = Some s1, events = evs2\<rparr>"
    by (simp add: main_def)
  then show ?thesis using quiet by simp
qed

theorem second_pass_is_idempotent_witness:
  "dumped (main env_ok cfg_ab) = Some [''a/b'' \<mapsto> new_state release_v2]
   \<and> dumped (main (env_ok\<lparr>state_file_content := Some ''saved''\<rparr>) cfg_ab) =
       Some [''a/b'' \<mapsto> new_state release_v2]
   \<and> posts (events (main (env_ok\<lparr>state_file_content := Some ''saved''\<rparr>) cfg_ab)) = []"
proof -
  have "parse_state_file env_ok ''saved'' = Some [''a/b'' \<mapsto> new_state release_v2]"
    by (simp add: env_ok_def)
  then show ?thesis
    using second_pass_is_idempotent [OF sample_main, of "''saved''"]
    by (simp add: sample_main)
qed

text \<open>
  Claim C9. With no state file, loading yields the empty state map and the run goes on
  to process the repositories from it. With a state file that does not parse into the
  expected structure, loading fails, and the run ends with that failure before any
  repository is queried: no event, no state dumped. (The time zone of the settings is
  looked up before the state is loaded; the statement is for a known time zone.)
\<close>

theorem state_load_absent_or_corrupt:
  assumes "zone_available e (timezone cfg)"
  shows "(state_file_content e = None \<longrightarrow>
            load_state e = Inr Map.empty
            \<and> main e cfg =
                (case process_repos e cfg Map.empty (repos cfg) of
                   (states, evs, Some err) \<Rightarrow> \<lparr>raised = Some err, dumped = None, events = evs\<rparr>
                 | (states, evs, None) \<Rightarrow> \<lparr>raised = None, dumped = Some states, events = evs\<rparr>))
       \<and> (state_file_content e = Some txt \<and> parse_state_file e txt = None \<longrightarrow>
            load_state e = Inl StateCorruptError
            \<and> main e cfg = \<lparr>raised = Some StateCorruptError, dumped = None, events = []\<rparr>)"
  using assms by (simp add: main_def load_state_def)

theorem state_load_absent_or_corrupt_witness:
  "load_state env_ok = Inr Map.empty
   \<and> main (env_ok\<lparr>state_file_content := Some ''states: ][''\<rparr>) cfg_ab =
       \<lparr>raised = Some StateCorruptError, dumped = None, events = []\<rparr>"
  using state_load_absent_or_corrupt [of env_ok cfg_ab "''x''"]
        state_load_absent_or_corrupt
          [of "env_ok\<lparr>state_file_content := Some ''states: ][''\<rparr>" cfg_ab "''states: ][''"]
  by (simp add: env_ok_def cfg_ab_def)

text \<open>
  Claim C10. When the name of the fetched release is the empty string (or is absent),
  the name stored in the state entry is the tag name, and the \<^verbatim>\<open>name\<close> variable
  of the template is the tag name, escaped as every name is.
\<close>

theorem empty_name_falls_back_to_tag:
  assumes "rel_name rel = Some [] \<or> rel_name rel = None"
    and "get_latest_release e r = Inr rel" and "\<not> skipped cfg rel"
  shows "name_or_tag rel = rel_tag_name rel
       \<and> map_option name (fst (process_repo e cfg s r) r) = Some (rel_tag_name rel)
       \<and> map_of (template_kws e cfg r rel) ''name'' = Some (PyStr (escape (rel_tag_name rel)))"
  using assms
  by (auto simp: process_repo_recorded new_state_def name_or_tag_def template_kws_def)

theorem empty_name_falls_back_to_tag_witness:
  "map_option name
     (fst (process_repo (env_ok\<lparr>get_latest_release := (\<lambda>r. Inr (release_v2\<lparr>rel_name := Some []\<rparr>))\<rparr>)
             cfg_ab Map.empty ''a/b'') ''a/b'') = Some ''v2''
   \<and> map_of (template_kws env_ok cfg_ab ''a/b'' (release_v2\<lparr>rel_name := Some []\<rparr>)) ''name'' =
       Some (PyStr ''v2'')"
proof -
  let ?rel = "release_v2\<lparr>rel_name := Some []\<rparr>"
  let ?e = "env_ok\<lparr>get_latest_release := (\<lambda>r. Inr ?rel)\<rparr>"
  have pre: "rel_name ?rel = Some [] \<or> rel_name ?rel = None"
    "get_latest_release ?e ''a/b'' = Inr ?rel"
    "\<not> skipped cfg_ab ?rel" "rel_tag_name ?rel = ''v2''"
    by (simp_all add: skipped_def release_v2_def)
  have esc: "escape ''v2'' = ''v2''"
    by (simp add: escape_concat replace_char_def ESCAPE_DCT_def)
  have "map_option name (fst (process_repo ?e cfg_ab Map.empty ''a/b'') ''a/b'') = Some ''v2''"
    using empty_name_falls_back_to_tag [OF pre(1-3), of Map.empty, THEN conjunct2, THEN conjunct1]
    by (simp add: pre(4))
  moreover have "map_of (template_kws env_ok cfg_ab ''a/b'' ?rel) ''name'' = Some (PyStr ''v2'')"
    by (simp add: template_kws_def name_or_tag_def release_v2_def esc)
  ultimately show ?thesis by simp
qed

end
